theory Spec2Isabelle
  imports Complex_Main "HOL-Library.AList" "HOL-Library.Sublist"
begin

section \<open>Python values and exceptions\<close>

text \<open>
  The program (\<^verbatim>\<open>src/tool.py\<close>, class \<^verbatim>\<open>AICompetitiveResearch\<close>) handles
  the values that \<^verbatim>\<open>json.loads\<close> produces and dictionaries built from them.
  A float is kept by its exact value; the two infinities and the NaN constant of the
  \<^verbatim>\<open>json\<close> module are separate values.  Dictionaries keep insertion order and
  all their keys are strings.
\<close>

datatype pyfloat = Finite rat | PosInf | NegInf | NaN

datatype pyval =
    PNone
  | PBool bool
  | PInt int
  | PFloat pyfloat
  | PStr string
  | PList "pyval list"
  | PDict "(string \<times> pyval) list"

text \<open>
  The exception classes that occur.  All of them derive from \<^verbatim>\<open>Exception\<close>, so
  \<^verbatim>\<open>except Exception\<close> catches every value of this type, while
  \<^verbatim>\<open>except IOError\<close> catches \<^verbatim>\<open>OSError\<close> (of which \<^verbatim>\<open>IOError\<close> is an
  alias) and its subclass \<^verbatim>\<open>requests.RequestException\<close> only.
\<close>

datatype exn =
    JSONDecodeError
  | TypeError
  | AttributeError
  | KeyError
  | ValueError
  | OSError
  | RequestException
  | OtherException string


text \<open>Truth value of an object, as \<^verbatim>\<open>if link\<close> tests it.\<close>

fun truthy :: "pyval \<Rightarrow> bool" where
  "truthy PNone = False"
| "truthy (PBool b) = b"
| "truthy (PInt i) = (i \<noteq> 0)"
| "truthy (PFloat (Finite r)) = (r \<noteq> 0)"
| "truthy (PFloat _) = True"
| "truthy (PStr s) = (s \<noteq> [])"
| "truthy (PList xs) = (xs \<noteq> [])"
| "truthy (PDict kvs) = (kvs \<noteq> [])"

text \<open>
  Membership in a \<^verbatim>\<open>set\<close> goes through hashing and equality: booleans, integers
  and floats of the same numeric value are one element, lists and dictionaries cannot be
  hashed (\<^verbatim>\<open>TypeError\<close>).  \<open>hash_key\<close> gives the element a value stands for.
\<close>

datatype key = KNone | KNum rat | KPosInf | KNegInf | KNaN | KStr string

fun hash_key :: "pyval \<Rightarrow> key option" where
  "hash_key PNone = Some KNone"
| "hash_key (PBool b) = Some (KNum (if b then 1 else 0))"
| "hash_key (PInt i) = Some (KNum (of_int i))"
| "hash_key (PFloat (Finite r)) = Some (KNum r)"
| "hash_key (PFloat PosInf) = Some KPosInf"
| "hash_key (PFloat NegInf) = Some KNegInf"
| "hash_key (PFloat NaN) = Some KNaN"
| "hash_key (PStr s) = Some (KStr s)"
| "hash_key (PList xs) = None"
| "hash_key (PDict kvs) = None"

text \<open>\<^verbatim>\<open>k in x\<close> for a string \<open>k\<close>.\<close>

fun py_contains :: "string \<Rightarrow> pyval \<Rightarrow> exn + bool" where
  "py_contains k (PDict kvs) = Inr (k \<in> fst ` set kvs)"
| "py_contains k (PList xs) = Inr (PStr k \<in> set xs)"
| "py_contains k (PStr s) = Inr (sublist k s)"
| "py_contains k _ = Inl TypeError"

text \<open>\<^verbatim>\<open>x[k]\<close> for a string \<open>k\<close>.\<close>

fun py_getitem :: "pyval \<Rightarrow> string \<Rightarrow> exn + pyval" where
  "py_getitem (PDict kvs) k = (case map_of kvs k of None \<Rightarrow> Inl KeyError | Some v \<Rightarrow> Inr v)"
| "py_getitem _ k = Inl TypeError"

text \<open>\<^verbatim>\<open>x.get(k, d)\<close>: only a dictionary has the method.\<close>

fun py_get :: "pyval \<Rightarrow> string \<Rightarrow> pyval \<Rightarrow> exn + pyval" where
  "py_get (PDict kvs) k d = Inr (case map_of kvs k of None \<Rightarrow> d | Some v \<Rightarrow> v)"
| "py_get _ k d = Inl AttributeError"

text \<open>The elements a \<^verbatim>\<open>for\<close> loop over \<open>x\<close> visits.\<close>

fun py_iter :: "pyval \<Rightarrow> exn + pyval list" where
  "py_iter (PList xs) = Inr xs"
| "py_iter (PStr s) = Inr (map (\<lambda>c. PStr [c]) s)"
| "py_iter (PDict kvs) = Inr (map (\<lambda>kv. PStr (fst kv)) kvs)"
| "py_iter _ = Inl TypeError"

section \<open>The environment\<close>

text \<open>
  What the program calls but does not define is a field of the environment: the
  \<^verbatim>\<open>json\<close> module, \<^verbatim>\<open>str()\<close> of a value that is not a string, the HTTP
  library, the agent executor, the language model and the file system.  The three remote
  services answer depending on the calls made so far, so that two identical calls may get
  different answers.
\<close>

datatype call =
    HttpRequest string string "(string \<times> string) list" string
  | ExecutorInvoke string
  | LlmInvoke string

record env =
  serper_api_key :: string
  json_loads :: "string \<Rightarrow> exn + pyval"
  json_dumps :: "pyval \<Rightarrow> string"
  py_str :: "pyval \<Rightarrow> string"
  requests_request :: "call list \<Rightarrow> call \<Rightarrow> exn + string"
  executor_invoke :: "call list \<Rightarrow> string \<Rightarrow> exn + pyval"
  llm_invoke :: "call list \<Rightarrow> string \<Rightarrow> exn + pyval"
  os_open :: "string \<Rightarrow> exn option"
  os_write :: "string \<Rightarrow> string \<Rightarrow> (exn \<times> string) option"

text \<open>
  A printed line is its literal text, followed by the exception that the f-string
  formats, if any.  The world is what the program changes: the calls it has sent, the
  lines on standard output and the files.
\<close>

type_synonym line = "string \<times> exn option"

record world =
  calls :: "call list"
  stdout :: "line list"
  files :: "string \<rightharpoonup> string"

definition print :: "line \<Rightarrow> world \<Rightarrow> world" where
  "print l w = w\<lparr>stdout := stdout w @ [l]\<rparr>"

section \<open>extract_sources\<close>

text \<open>
  The loop of \<^verbatim>\<open>extract_sources\<close> over \<^verbatim>\<open>results['organic']\<close>, with the list
  \<open>sources\<close> and the set \<open>source_links\<close> it updates.
\<close>

fun extract_loop :: "pyval list \<Rightarrow> pyval list \<Rightarrow> key set \<Rightarrow> exn + pyval list" where
  "extract_loop [] sources source_links = Inr sources"
| "extract_loop (result # rest) sources source_links =
     (case py_get result ''link'' (PStr '''') of
        Inl e \<Rightarrow> Inl e
      | Inr link \<Rightarrow>
          if \<not> truthy link then extract_loop rest sources source_links
          else (case hash_key link of
             None \<Rightarrow> Inl TypeError
           | Some k \<Rightarrow>
               if k \<in> source_links then extract_loop rest sources source_links
               else (case py_get result ''title'' (PStr ''Untitled'') of
                  Inl e \<Rightarrow> Inl e
                | Inr title \<Rightarrow>
                    (case py_get result ''snippet'' (PStr '''') of
                       Inl e \<Rightarrow> Inl e
                     | Inr snippet \<Rightarrow>
                         extract_loop rest
                           (sources @ [PDict [(''title'', title), (''link'', link),
                                              (''snippet'', snippet)]])
                           (insert k source_links)))))"

text \<open>The body of the \<^verbatim>\<open>try\<close> block.\<close>

definition extract_try :: "env \<Rightarrow> string \<Rightarrow> exn + pyval list" where
  "extract_try env search_results =
     (case json_loads env search_results of
        Inl e \<Rightarrow> Inl e
      | Inr results \<Rightarrow>
          (case py_contains ''organic'' results of
             Inl e \<Rightarrow> Inl e
           | Inr False \<Rightarrow> Inr []
           | Inr True \<Rightarrow>
               (case py_getitem results ''organic'' of
                  Inl e \<Rightarrow> Inl e
                | Inr organic \<Rightarrow>
                    (case py_iter organic of
                       Inl e \<Rightarrow> Inl e
                     | Inr entries \<Rightarrow> extract_loop entries [] {}))))"

definition extract_sources :: "env \<Rightarrow> string \<Rightarrow> world \<Rightarrow> (exn + pyval list) \<times> world" where
  "extract_sources env search_results w =
     (case extract_try env search_results of
        Inr sources \<Rightarrow> (Inr sources, w)
      | Inl e \<Rightarrow> (Inr [], print (''Error extracting sources: '', Some e) w))"

section \<open>web_search\<close>

text \<open>
  \<^verbatim>\<open>web_search\<close> builds the payload and the headers, sends one POST request and
  returns \<^verbatim>\<open>response.text\<close>; the status code is not looked at.  The request is
  appended to the calls of the world before the answer (or the transport fault) comes.
\<close>

definition web_search :: "env \<Rightarrow> string \<Rightarrow> world \<Rightarrow> (exn + string) \<times> world" where
  "web_search env query w =
     (let url = ''https://google.serper.dev/search'';
          payload = json_dumps env
            (PDict [(''q'', PStr (query @ '' AI offerings case studies'')), (''num'', PInt 7)]);
          headers = [(''X-API-KEY'', serper_api_key env), (''Content-Type'', ''application/json'')];
          request = HttpRequest ''POST'' url headers payload
      in (requests_request env (calls w) request, w\<lparr>calls := calls w @ [request]\<rparr>))"

section \<open>research_companies\<close>

text \<open>The line feed character, the newline of the string literals of the source.\<close>

definition nl :: string where
  "nl = [CHR 0x0A]"

text \<open>\<^verbatim>\<open>sep.join(xs)\<close>.\<close>

fun join :: "string \<Rightarrow> string list \<Rightarrow> string" where
  "join sep [] = []"
| "join sep [x] = x"
| "join sep (x # y # ys) = x @ sep @ join sep (y # ys)"

definition search_query :: "string \<Rightarrow> string" where
  "search_query company = company @ '' AI offerings technology case studies client projects''"

definition research_input :: "string \<Rightarrow> string" where
  "research_input company =
     ''Comprehensive analysis of '' @ company @ [CHR 0x27] @
     ''s AI offerings, technological capabilities, and notable case studies. '' @
     ''Provide detailed insights into their AI implementations.''"

definition comparison_prompt :: "string list \<Rightarrow> string \<Rightarrow> string" where
  "comparison_prompt companies parent_company =
     ''Compare the AI capabilities of '' @ join '', '' companies @ '' in relation to '' @
       parent_company @ ''. '' @ nl @
     ''        Analyze:'' @ nl @
     ''        1. Technological strengths and unique offerings'' @ nl @
     ''        2. Comparative advantages'' @ nl @
     ''        3. Potential competitive positioning'' @ nl @
     ''        Focus specifically on how the other companies compare to '' @
       parent_company @ ''.''"

text \<open>
  The record stored for one company.  \<^verbatim>\<open>research\<close> is what the agent executor
  returned.
\<close>

definition company_record :: "pyval \<Rightarrow> pyval list \<Rightarrow> pyval" where
  "company_record ai_offerings sources =
     PDict [(''ai_offerings'', ai_offerings), (''sources'', PList sources)]"

text \<open>
  The loop over \<^verbatim>\<open>all_companies\<close>.  \<^verbatim>\<open>research_results[company] = ...\<close> on a
  dictionary replaces the value of a key that is there, in its place, and appends a new
  key otherwise, which is \<open>AList.update\<close>.  A fault of the search or of the agent leaves
  the loop; the calls the agent makes on its own while it runs belong to the agent and are
  not recorded.
\<close>

fun research_loop ::
  "env \<Rightarrow> string list \<Rightarrow> (string \<times> pyval) list \<Rightarrow> world \<Rightarrow>
     (exn + (string \<times> pyval) list) \<times> world" where
  "research_loop env [] research_results w = (Inr research_results, w)"
| "research_loop env (company # rest) research_results w =
     (if company = [] then research_loop env rest research_results w
      else (case web_search env (search_query company) w of
         (Inl e, w1) \<Rightarrow> (Inl e, w1)
       | (Inr search_results, w1) \<Rightarrow>
           (case extract_sources env search_results w1 of
              (Inl e, w2) \<Rightarrow> (Inl e, w2)
            | (Inr sources, w2) \<Rightarrow>
                (let w3 = w2\<lparr>calls := calls w2 @ [ExecutorInvoke (research_input company)]\<rparr>
                 in (case executor_invoke env (calls w2) (research_input company) of
                    Inl e \<Rightarrow> (Inl e, w3)
                  | Inr research \<Rightarrow>
                      (case py_get research ''output'' (PStr ''No detailed AI offerings found'') of
                         Inl e \<Rightarrow> (Inl e, w3)
                       | Inr ai_offerings \<Rightarrow>
                           research_loop env rest
                             (AList.update company (company_record ai_offerings sources)
                                research_results) w3))))))"

definition research_companies ::
  "env \<Rightarrow> string list \<Rightarrow> string \<Rightarrow> world \<Rightarrow> (exn + (string \<times> pyval) list) \<times> world" where
  "research_companies env companies parent_company w =
     (case research_loop env (companies @ [parent_company]) [] w of
        (Inl e, w1) \<Rightarrow> (Inl e, w1)
      | (Inr research_results, w1) \<Rightarrow>
          (let prompt = comparison_prompt companies parent_company;
               w2 = w1\<lparr>calls := calls w1 @ [LlmInvoke prompt]\<rparr>
           in (case llm_invoke env (calls w1) prompt of
              Inl e \<Rightarrow> (Inl e, w2)
            | Inr content \<Rightarrow>
                (Inr (AList.update ''comparative_analysis'' content research_results), w2))))"

section \<open>generate_markdown_report\<close>

text \<open>An f-string field \<^verbatim>\<open>{v}\<close>: a string as it is, any other value through \<^verbatim>\<open>str\<close>.\<close>

definition fstr :: "env \<Rightarrow> pyval \<Rightarrow> string" where
  "fstr env v = (case v of PStr s \<Rightarrow> s | _ \<Rightarrow> py_str env v)"

fun sources_loop :: "env \<Rightarrow> pyval list \<Rightarrow> string \<Rightarrow> exn + string" where
  "sources_loop env [] report = Inr report"
| "sources_loop env (source # rest) report =
     (case py_getitem source ''title'' of
        Inl e \<Rightarrow> Inl e
      | Inr title \<Rightarrow>
          (case py_getitem source ''link'' of
             Inl e \<Rightarrow> Inl e
           | Inr link \<Rightarrow>
               sources_loop env rest
                 (report @ ''- **'' @ fstr env title @ ''**: '' @ fstr env link @ nl)))"

fun report_loop :: "env \<Rightarrow> (string \<times> pyval) list \<Rightarrow> string \<Rightarrow> exn + string" where
  "report_loop env [] report = Inr report"
| "report_loop env ((company, data) # rest) report =
     (if company \<noteq> ''comparative_analysis'' then
        (let report1 = report @ ''## '' @ company @ '' AI Offerings'' @ nl @ nl
         in (case py_getitem data ''ai_offerings'' of
            Inl e \<Rightarrow> Inl e
          | Inr ai_offerings \<Rightarrow>
              (let report2 = report1 @ fstr env ai_offerings @ nl @ nl;
                   report3 = report2 @ ''### Research Sources:'' @ nl
               in (case py_get data ''sources'' (PList []) of
                  Inl e \<Rightarrow> Inl e
                | Inr srcs \<Rightarrow>
                    (case py_iter srcs of
                       Inl e \<Rightarrow> Inl e
                     | Inr sources \<Rightarrow>
                         (case sources_loop env sources report3 of
                            Inl e \<Rightarrow> Inl e
                          | Inr report4 \<Rightarrow> report_loop env rest (report4 @ nl)))))))
      else report_loop env rest report)"

definition report_heading :: string where
  "report_heading = ''# AI Offerings and Case Studies Competitive Research Report'' @ nl @ nl"

definition generate_markdown_report :: "env \<Rightarrow> (string \<times> pyval) list \<Rightarrow> exn + string" where
  "generate_markdown_report env research_data =
     (case report_loop env research_data report_heading of
        Inl e \<Rightarrow> Inl e
      | Inr report \<Rightarrow>
          Inr (report @ ''## Comparative Analysis'' @ nl @ nl @
               fstr env (case map_of research_data ''comparative_analysis'' of
                           None \<Rightarrow> PStr ''No comparative analysis available''
                         | Some v \<Rightarrow> v) @ nl))"

section \<open>export_markdown\<close>



section \<open>Notions of the specification\<close>

text \<open>
  The following definitions are not code of the program.  They say, in the words of the
  specification, what the theorems below compare the program with.
\<close>

text \<open>The link of an entry, with the default the program uses; the Source made of an entry.\<close>

fun entry_link :: "pyval \<Rightarrow> pyval" where
  "entry_link (PDict fs) = (case map_of fs ''link'' of None \<Rightarrow> PStr '''' | Some v \<Rightarrow> v)"
| "entry_link _ = PStr ''''"

fun source_of :: "pyval \<Rightarrow> pyval" where
  "source_of (PDict fs) =
     PDict [(''title'', case map_of fs ''title'' of None \<Rightarrow> PStr ''Untitled'' | Some v \<Rightarrow> v),
            (''link'', case map_of fs ''link'' of None \<Rightarrow> PStr '''' | Some v \<Rightarrow> v),
            (''snippet'', case map_of fs ''snippet'' of None \<Rightarrow> PStr '''' | Some v \<Rightarrow> v)]"
| "source_of v = v"

text \<open>
  The entries for which a Source is emitted when the links in \<open>seen\<close> have been met:
  those with a true link that has not been met.
\<close>

fun emitted :: "key set \<Rightarrow> pyval list \<Rightarrow> pyval list" where
  "emitted seen [] = []"
| "emitted seen (e # es) =
     (if truthy (entry_link e) \<and> the (hash_key (entry_link e)) \<notin> seen
      then e # emitted (insert (the (hash_key (entry_link e))) seen) es
      else emitted seen es)"

text \<open>
  An entry of a well-formed search response is an object whose \<open>link\<close> is a URL: a string
  that is not empty.  \<open>first_occurrences\<close> are the entries whose link does not occur at
  an earlier position of the array.
\<close>

fun well_formed_entry :: "pyval \<Rightarrow> bool" where
  "well_formed_entry (PDict fs) =
     (case map_of fs ''link'' of Some (PStr l) \<Rightarrow> l \<noteq> [] | _ \<Rightarrow> False)"
| "well_formed_entry _ = False"

definition first_occurrences :: "pyval list \<Rightarrow> pyval list" where
  "first_occurrences es =
     map (nth es)
       (filter (\<lambda>i. entry_link (es ! i) \<notin> set (map entry_link (take i es))) [0..<length es])"

fun is_dict :: "pyval \<Rightarrow> bool" where
  "is_dict (PDict fs) = True"
| "is_dict _ = False"

text \<open>
  The calls that processing one company sends: the search request and the invocation of
  the agent.
\<close>

definition search_request :: "env \<Rightarrow> string \<Rightarrow> call" where
  "search_request env company =
     HttpRequest ''POST'' ''https://google.serper.dev/search''
       [(''X-API-KEY'', serper_api_key env), (''Content-Type'', ''application/json'')]
       (json_dumps env
          (PDict [(''q'', PStr (search_query company @ '' AI offerings case studies'')),
                  (''num'', PInt 7)]))"

definition company_calls :: "env \<Rightarrow> string \<Rightarrow> call list" where
  "company_calls env company = [search_request env company, ExecutorInvoke (research_input company)]"

text \<open>The sources that \<^verbatim>\<open>extract_sources\<close> gives for a response text.\<close>

definition sources_of :: "env \<Rightarrow> string \<Rightarrow> pyval list" where
  "sources_of env text = (case extract_try env text of Inr sources \<Rightarrow> sources | Inl e \<Rightarrow> [])"

text \<open>
  A Source has a title and a link; a CompanyResearch has \<open>ai_offerings\<close> and, if it has
  \<open>sources\<close>, a list of Sources there; a ResearchResult maps every key but
  \<open>comparative_analysis\<close> to a CompanyResearch.
\<close>

fun is_source :: "pyval \<Rightarrow> bool" where
  "is_source (PDict fs) = (map_of fs ''title'' \<noteq> None \<and> map_of fs ''link'' \<noteq> None)"
| "is_source _ = False"

fun is_company_research :: "pyval \<Rightarrow> bool" where
  "is_company_research (PDict fs) =
     (map_of fs ''ai_offerings'' \<noteq> None \<and>
      (case map_of fs ''sources'' of
         None \<Rightarrow> True
       | Some (PList ss) \<Rightarrow> list_all is_source ss
       | Some _ \<Rightarrow> False))"
| "is_company_research _ = False"

definition is_research_result :: "(string \<times> pyval) list \<Rightarrow> bool" where
  "is_research_result d =
     list_all (\<lambda>kv. fst kv \<noteq> ''comparative_analysis'' \<longrightarrow> is_company_research (snd kv)) d"

section \<open>A sample environment\<close>

text \<open>
  Concrete inputs on which the theorems are run.  The search service answers with
  \<open>response_one\<close> while fewer than four calls have been made and with \<open>response_two\<close>
  afterwards, the agent answers with one star for every call made before, and
  \<^verbatim>\<open>json.loads\<close> is given by its values on the texts that occur.  The path
  \<^verbatim>\<open>/missing/report.md\<close> cannot be opened, and on \<^verbatim>\<open>/full/report.md\<close> the write
  fails after the file has been opened.
\<close>

definition response_one :: string where
  \<open>response_one =
     ''{"organic": [{"title": "T1", "link": "u1", "snippet": "s1"}, {"link": "u2"}, '' @
     ''{"title": "T3", "link": "u1"}, {"title": "T4", "link": ""}, {"title": "T5"}]}''\<close>

definition entries_one :: "pyval list" where
  "entries_one =
     [PDict [(''title'', PStr ''T1''), (''link'', PStr ''u1''), (''snippet'', PStr ''s1'')],
      PDict [(''link'', PStr ''u2'')],
      PDict [(''title'', PStr ''T3''), (''link'', PStr ''u1'')],
      PDict [(''title'', PStr ''T4''), (''link'', PStr '''')],
      PDict [(''title'', PStr ''T5'')]]"

definition parsed_one :: pyval where
  "parsed_one = PDict [(''organic'', PList entries_one)]"

definition response_two :: string where
  \<open>response_two =
     ''{"organic": [{"title": "P", "link": "v1"}, {"title": "Q", "link": "v2"}, '' @
     ''{"title": "R", "link": "v1"}]}''\<close>

definition entries_two :: "pyval list" where
  "entries_two =
     [PDict [(''title'', PStr ''P''), (''link'', PStr ''v1'')],
      PDict [(''title'', PStr ''Q''), (''link'', PStr ''v2'')],
      PDict [(''title'', PStr ''R''), (''link'', PStr ''v1'')]]"

definition parsed_two :: pyval where
  "parsed_two = PDict [(''organic'', PList entries_two)]"

definition sample_loads :: "string \<Rightarrow> exn + pyval" where
  "sample_loads s =
     (if s = ''{}'' then Inr (PDict [])
      else if s = response_one then Inr parsed_one
      else if s = response_two then Inr parsed_two
      else Inl JSONDecodeError)"

definition sample_env :: env where
  "sample_env =
     \<lparr> serper_api_key = ''key'',
       json_loads = sample_loads,
       json_dumps = (\<lambda>v. ''payload''),
       py_str = (\<lambda>v. ''value''),
       requests_request = (\<lambda>history request.
          Inr (if length history < 4 then response_one else response_two)),
       executor_invoke = (\<lambda>history input.
          Inr (PDict [(''output'', PStr (replicate (length history) (CHR ''*'')))])),
       llm_invoke = (\<lambda>history prompt. Inr (PStr ''comparison'')),
       os_open = (\<lambda>path. if path = ''/missing/report.md'' then Some OSError else None),
       os_write = (\<lambda>path report. if path = ''/full/report.md'' then Some (OSError, []) else None) \<rparr>"

definition world0 :: world where
  "world0 = \<lparr> calls = [], stdout = [], files = Map.empty \<rparr>"

section \<open>extract_sources: what is emitted\<close>

lemma extract_loop_returns:
  "extract_loop es acc seen = Inr srcs \<Longrightarrow> srcs = acc @ map source_of (emitted seen es)"
proof (induction es arbitrary: acc seen)
  case Nil
  then show ?case by simp
next
  case (Cons e es)
  show ?case
    using Cons.prems
    by (cases e) (auto split: if_splits option.splits sum.splits dest!: Cons.IH)
qed

lemma extract_loop_total:
  "\<forall>e \<in> set es. is_dict e \<and> (truthy (entry_link e) \<longrightarrow> hash_key (entry_link e) \<noteq> None) \<Longrightarrow>
   extract_loop es acc seen = Inr (acc @ map source_of (emitted seen es))"
proof (induction es arbitrary: acc seen)
  case Nil
  then show ?case by simp
next
  case (Cons e es)
  then show ?case
    by (cases e) (auto split: option.splits)
qed

lemma emitted_subseq: "subseq (emitted seen es) es"
  by (induction es arbitrary: seen) auto

lemma emitted_truthy: "e \<in> set (emitted seen es) \<Longrightarrow> truthy (entry_link e)"
  by (induction es arbitrary: seen) (auto split: if_splits)

lemma emitted_keys:
  "set (map (\<lambda>e. the (hash_key (entry_link e))) (emitted seen es)) \<inter> seen = {} \<and>
   distinct (map (\<lambda>e. the (hash_key (entry_link e))) (emitted seen es))"
proof (induction es arbitrary: seen)
  case Nil
  show ?case by simp
next
  case (Cons e es)
  show ?case
    using Cons.IH [of seen] Cons.IH [of "insert (the (hash_key (entry_link e))) seen"]
    by auto
qed

lemma well_formed_entry_link:
  "well_formed_entry e \<Longrightarrow> \<exists>l. entry_link e = PStr l \<and> l \<noteq> []"
  by (cases e) (auto split: option.splits pyval.splits)

lemma emitted_first_occurrences:
  "\<forall>e \<in> set es. well_formed_entry e \<Longrightarrow>
   emitted (KStr ` T) es =
     map (nth es)
       (filter (\<lambda>i. entry_link (es ! i) \<notin> PStr ` T \<union> set (map entry_link (take i es)))
          [0..<length es])"
proof (induction es arbitrary: T)
  case Nil
  show ?case by simp
next
  case (Cons e es)
  define P where "P = (\<lambda>T es i. entry_link (es ! i) \<notin> PStr ` T \<union> set (map entry_link (take i es)))"
  from Cons.prems obtain l where l: "entry_link e = PStr l" "l \<noteq> []"
    using well_formed_entry_link by auto
  have wf: "\<forall>e \<in> set es. well_formed_entry e" using Cons.prems by simp
  have IH: "emitted (KStr ` T') es = map (nth es) (filter (P T' es) [0..<length es])" for T'
    using Cons.IH [OF wf, of T'] by (simp add: P_def)
  have upt: "[0..<length (e # es)] = 0 # map Suc [0..<length es]"
    by (simp add: upt_conv_Cons map_Suc_upt del: upt_Suc)
  have P0: "P T (e # es) 0 \<longleftrightarrow> l \<notin> T"
    using l by (auto simp: P_def)
  have PS: "P T (e # es) (Suc i) \<longleftrightarrow> P (insert l T) es i" for i
    using l by (auto simp: P_def)
  have flt: "filter (P T (e # es)) [0..<length (e # es)] =
      (if l \<notin> T then [0] else []) @ map Suc (filter (P (insert l T) es) [0..<length es])"
    unfolding upt by (simp add: filter_map o_def P0 PS)
  have key: "truthy (entry_link e)" "the (hash_key (entry_link e)) = KStr l"
    using l by simp_all
  have mem: "KStr l \<in> KStr ` T \<longleftrightarrow> l \<in> T" by auto
  have "emitted (KStr ` T) (e # es) = map (nth (e # es)) (filter (P T (e # es)) [0..<length (e # es)])"
  proof (cases "l \<in> T")
    case True
    then have "insert l T = T" by auto
    then show ?thesis
      using True IH [of T] by (simp only: flt emitted.simps key mem) (simp add: o_def)
  next
    case False
    have "KStr ` insert l T = insert (KStr l) (KStr ` T)" by simp
    then show ?thesis
      using False IH [of "insert l T"] by (simp only: flt emitted.simps key mem) (simp add: o_def)
  qed
  then show ?case by (simp only: P_def)
qed

lemma first_occurrences_emitted:
  "\<forall>e \<in> set es. well_formed_entry e \<Longrightarrow> emitted {} es = first_occurrences es"
  using emitted_first_occurrences [of es "{}"] by (simp add: first_occurrences_def)

lemma extract_try_organic:
  assumes "json_loads env raw = Inr (PDict kvs)" and "map_of kvs ''organic'' = Some (PList es)"
  shows "extract_try env raw = extract_loop es [] {}"
proof -
  have "''organic'' \<in> fst ` set kvs"
    using assms(2) by (metis domI dom_map_of_conv_image_fst)
  then show ?thesis
    using assms by (simp add: extract_try_def)
qed

lemma well_formed_entry_hashable:
  "well_formed_entry e \<Longrightarrow> is_dict e \<and> (truthy (entry_link e) \<longrightarrow> hash_key (entry_link e) \<noteq> None)"
  by (cases e) (auto split: option.splits pyval.splits)

lemma entry_link_source_of: "is_dict e \<Longrightarrow> entry_link (source_of e) = entry_link e"
  by (cases e) (auto split: option.splits)

lemma emitted_dict: "e \<in> set (emitted seen es) \<Longrightarrow> is_dict e"
  using emitted_truthy [of e seen es] by (cases e) auto

text \<open>
  Claim C2.  For a search response that parses to an object with an \<open>organic\<close> array of
  well-formed entries, \<^verbatim>\<open>extract_sources\<close> returns, in the order of the array, one
  Source for every entry whose link does not occur earlier in the array, and no Source for
  an entry whose link does; nothing is printed and the links of the returned Sources are
  pairwise distinct.
\<close>

theorem extract_sources_first_seen:
  assumes "json_loads env raw = Inr (PDict kvs)"
    and "map_of kvs ''organic'' = Some (PList es)"
    and "\<forall>e \<in> set es. well_formed_entry e"
  shows "\<exists>srcs. extract_sources env raw w = (Inr srcs, w) \<and>
           srcs = map source_of (first_occurrences es) \<and>
           map entry_link srcs = map entry_link (first_occurrences es) \<and>
           distinct (map entry_link srcs)"
proof -
  have em: "emitted {} es = first_occurrences es"
    using first_occurrences_emitted [OF assms(3)] .
  have "extract_loop es [] {} = Inr ([] @ map source_of (emitted {} es))"
    using assms(3) well_formed_entry_hashable by (intro extract_loop_total) blast
  then have run: "extract_sources env raw w = (Inr (map source_of (first_occurrences es)), w)"
    using extract_try_organic [OF assms(1,2)] em by (simp add: extract_sources_def)
  have links: "map entry_link (map source_of (first_occurrences es)) = map entry_link (first_occurrences es)"
    using emitted_dict [of _ "{}" es] em by (simp add: entry_link_source_of)
  have "distinct (map (\<lambda>e. the (hash_key (entry_link e))) (first_occurrences es))"
    using emitted_keys [of "{}" es] em by simp
  then have "distinct (map (\<lambda>v. the (hash_key v)) (map entry_link (first_occurrences es)))"
    by (simp add: o_def)
  then have dist: "distinct (map entry_link (first_occurrences es))"
    using distinct_map by blast
  show ?thesis
    by (intro exI [of _ "map source_of (first_occurrences es)"] conjI run refl links)
       (simp only: links dist)
qed

theorem extract_sources_first_seen_witness:
  "json_loads sample_env response_two = Inr (PDict [(''organic'', PList entries_two)]) \<and>
   map_of [(''organic'', PList entries_two)] ''organic'' = Some (PList entries_two) \<and>
   list_all well_formed_entry entries_two \<and>
   first_occurrences entries_two =
     [PDict [(''title'', PStr ''P''), (''link'', PStr ''v1'')],
      PDict [(''title'', PStr ''Q''), (''link'', PStr ''v2'')]] \<and>
   extract_sources sample_env response_two world0 =
     (Inr [PDict [(''title'', PStr ''P''), (''link'', PStr ''v1''), (''snippet'', PStr '''')],
           PDict [(''title'', PStr ''Q''), (''link'', PStr ''v2''), (''snippet'', PStr '''')]],
      world0)"
proof -
  have h1: "json_loads sample_env response_two = Inr (PDict [(''organic'', PList entries_two)])"
    by (simp add: sample_env_def sample_loads_def response_one_def response_two_def parsed_two_def)
  have h2: "map_of [(''organic'', PList entries_two)] ''organic'' = Some (PList entries_two)"
    by simp
  have h3: "\<forall>e \<in> set entries_two. well_formed_entry e"
    by (simp add: entries_two_def)
  have fo: "first_occurrences entries_two =
     [PDict [(''title'', PStr ''P''), (''link'', PStr ''v1'')],
      PDict [(''title'', PStr ''Q''), (''link'', PStr ''v2'')]]"
    by (simp add: first_occurrences_def entries_two_def upt_rec)
  have run: "extract_sources sample_env response_two world0 =
     (Inr [PDict [(''title'', PStr ''P''), (''link'', PStr ''v1''), (''snippet'', PStr '''')],
           PDict [(''title'', PStr ''Q''), (''link'', PStr ''v2''), (''snippet'', PStr '''')]],
      world0)"
    using extract_sources_first_seen [OF h1 h2 h3, of world0] by (simp add: fo)
  have h3': "list_all well_formed_entry entries_two"
    using h3 by (simp add: list_all_iff)
  show ?thesis
    by (intro conjI h1 h2 h3' fo run)
qed

text \<open>
  Claim C3.  When \<^verbatim>\<open>json.loads\<close> raises on the input (the input is not valid JSON),
  \<^verbatim>\<open>extract_sources\<close> returns the empty list and prints the error; the same holds for
  any exception raised inside the \<^verbatim>\<open>try\<close> block; and on no input does
  \<^verbatim>\<open>extract_sources\<close> raise.
\<close>

theorem extract_sources_never_raises:
  "(json_loads env raw = Inl e \<longrightarrow>
      extract_sources env raw w = (Inr [], print (''Error extracting sources: '', Some e) w)) \<and>
   (extract_try env raw = Inl e' \<longrightarrow>
      extract_sources env raw w = (Inr [], print (''Error extracting sources: '', Some e') w)) \<and>
   (\<exists>srcs w'. extract_sources env raw w = (Inr srcs, w'))"
  by (simp add: extract_sources_def extract_try_def split: sum.split)

theorem extract_sources_never_raises_witness:
  "json_loads sample_env ''not json'' = Inl JSONDecodeError \<and>
   extract_try sample_env ''not json'' = Inl JSONDecodeError \<and>
   extract_sources sample_env ''not json'' world0 =
     (Inr [], \<lparr>calls = [], stdout = [(''Error extracting sources: '', Some JSONDecodeError)],
               files = Map.empty\<rparr>) \<and>
   extract_try (sample_env\<lparr>json_loads := (\<lambda>s. Inr (PInt 5))\<rparr>) ''5'' = Inl TypeError \<and>
   extract_sources (sample_env\<lparr>json_loads := (\<lambda>s. Inr (PInt 5))\<rparr>) ''5'' world0 =
     (Inr [], \<lparr>calls = [], stdout = [(''Error extracting sources: '', Some TypeError)],
               files = Map.empty\<rparr>)"
proof -
  have h1: "json_loads sample_env ''not json'' = Inl JSONDecodeError"
    by (simp add: sample_env_def sample_loads_def response_one_def response_two_def)
  have h2: "extract_try sample_env ''not json'' = Inl JSONDecodeError"
    by (simp add: extract_try_def h1)
  have h3: "extract_try (sample_env\<lparr>json_loads := (\<lambda>s. Inr (PInt 5))\<rparr>) ''5'' = Inl TypeError"
    by (simp add: extract_try_def)
  show ?thesis
    using extract_sources_never_raises [of sample_env "''not json''" JSONDecodeError world0
        JSONDecodeError]
      extract_sources_never_raises [of "sample_env\<lparr>json_loads := (\<lambda>s. Inr (PInt 5))\<rparr>" "''5''"
        _ world0 TypeError] h1 h2 h3
    by (simp add: print_def world0_def)
qed

text \<open>
  Claim C4.  When the input parses to an object without the key \<open>organic\<close>, and in
  particular when the input is \<^verbatim>\<open>{}\<close>, \<^verbatim>\<open>extract_sources\<close> returns the empty
  list and prints nothing.  A valid input that is not an object gives the empty list as
  well.
\<close>

theorem extract_sources_without_organic:
  "(json_loads env raw = Inr (PDict kvs) \<and> ''organic'' \<notin> fst ` set kvs \<longrightarrow>
      extract_sources env raw w = (Inr [], w)) \<and>
   (json_loads env ''{}'' = Inr (PDict []) \<longrightarrow> extract_sources env ''{}'' w = (Inr [], w)) \<and>
   (json_loads env raw = Inr v \<and> \<not> is_dict v \<longrightarrow> fst (extract_sources env raw w) = Inr [])"
proof (intro conjI impI)
  assume "json_loads env raw = Inr (PDict kvs) \<and> ''organic'' \<notin> fst ` set kvs"
  then show "extract_sources env raw w = (Inr [], w)"
    by (simp add: extract_sources_def extract_try_def)
next
  assume "json_loads env ''{}'' = Inr (PDict [])"
  then show "extract_sources env ''{}'' w = (Inr [], w)"
    by (simp add: extract_sources_def extract_try_def)
next
  assume "json_loads env raw = Inr v \<and> \<not> is_dict v"
  then show "fst (extract_sources env raw w) = Inr []"
    by (cases v) (auto simp: extract_sources_def extract_try_def split: sum.split bool.split)
qed

theorem extract_sources_without_organic_witness:
  "json_loads sample_env ''{}'' = Inr (PDict []) \<and> ''organic'' \<notin> fst ` set ([] :: (string \<times> pyval) list) \<and>
   \<not> is_dict (PList []) \<and>
   extract_sources sample_env ''{}'' world0 = (Inr [], world0) \<and>
   fst (extract_sources (sample_env\<lparr>json_loads := (\<lambda>s. Inr (PList []))\<rparr>) ''[]'' world0) = Inr []"
proof -
  have h1: "json_loads sample_env ''{}'' = Inr (PDict [])"
    by (simp add: sample_env_def sample_loads_def)
  have h2: "json_loads (sample_env\<lparr>json_loads := (\<lambda>s. Inr (PList []))\<rparr>) ''[]'' = Inr (PList [])"
    by simp
  show ?thesis
    using extract_sources_without_organic [of sample_env "''{}''" "[]" world0 "PNone"]
      extract_sources_without_organic [of "sample_env\<lparr>json_loads := (\<lambda>s. Inr (PList []))\<rparr>" "''[]''" "[]" world0 "PList []"]
      h1 h2
    by simp
qed

section \<open>web_search: the request\<close>

text \<open>
  Claim C8.  For every query, \<^verbatim>\<open>web_search\<close> sends exactly one request, a POST whose
  body is the JSON serialisation of the object with \<open>q\<close> the query followed by
  \<^verbatim>\<open>" AI offerings case studies"\<close> and \<open>num\<close> equal to 7, and returns what the
  request gives.
\<close>

theorem web_search_request_body:
  "web_search env query w =
     (requests_request env (calls w)
        (HttpRequest ''POST'' ''https://google.serper.dev/search''
           [(''X-API-KEY'', serper_api_key env), (''Content-Type'', ''application/json'')]
           (json_dumps env
              (PDict [(''q'', PStr (query @ '' AI offerings case studies'')), (''num'', PInt 7)]))),
      w\<lparr>calls := calls w @
        [HttpRequest ''POST'' ''https://google.serper.dev/search''
           [(''X-API-KEY'', serper_api_key env), (''Content-Type'', ''application/json'')]
           (json_dumps env
              (PDict [(''q'', PStr (query @ '' AI offerings case studies'')), (''num'', PInt 7)]))]\<rparr>)"
  by (simp add: web_search_def Let_def)

section \<open>extract_sources: defaults and skipped entries\<close>

lemma emitted_linked:
  assumes "e \<in> set (emitted seen es)"
  shows "\<exists>fs. e = PDict fs \<and> map_of fs ''link'' \<noteq> None \<and> map_of fs ''link'' \<noteq> Some (PStr '''')"
proof -
  have "truthy (entry_link e)" using assms by (rule emitted_truthy)
  then show ?thesis by (cases e) (auto split: option.splits)
qed

lemma source_of_fields:
  "map_of fs ''link'' = Some l \<Longrightarrow>
   source_of (PDict fs) =
     PDict [(''title'', case map_of fs ''title'' of None \<Rightarrow> PStr ''Untitled'' | Some t \<Rightarrow> t),
            (''link'', l),
            (''snippet'', case map_of fs ''snippet'' of None \<Rightarrow> PStr '''' | Some s \<Rightarrow> s)]"
  by simp

text \<open>
  Claim C5.  Whatever \<^verbatim>\<open>extract_sources\<close> returns for a response with an
  \<open>organic\<close> array, the returned Sources are made, in order, of entries of the array that
  are objects with a \<open>link\<close> field different from the empty string: an entry without a
  link or with the empty link gets no Source.  The Source of an entry has the title
  \<^verbatim>\<open>'Untitled'\<close> when the entry has no \<open>title\<close>, the snippet \<^verbatim>\<open>''\<close> when it
  has no \<open>snippet\<close>, and the fields of the entry otherwise.
\<close>

theorem extract_sources_defaults_and_skips:
  assumes "json_loads env raw = Inr (PDict kvs)"
    and "map_of kvs ''organic'' = Some (PList es)"
    and "extract_sources env raw w = (Inr srcs, w')"
  shows "\<exists>sel. subseq sel es \<and> srcs = map source_of sel \<and>
           (\<forall>e \<in> set sel. \<exists>fs l. e = PDict fs \<and> map_of fs ''link'' = Some l \<and> l \<noteq> PStr '''' \<and>
              source_of e =
                PDict [(''title'', case map_of fs ''title'' of None \<Rightarrow> PStr ''Untitled'' | Some t \<Rightarrow> t),
                       (''link'', l),
                       (''snippet'', case map_of fs ''snippet'' of None \<Rightarrow> PStr '''' | Some s \<Rightarrow> s)])"
proof -
  have linked: "\<exists>fs l. e = PDict fs \<and> map_of fs ''link'' = Some l \<and> l \<noteq> PStr '''' \<and>
              source_of e =
                PDict [(''title'', case map_of fs ''title'' of None \<Rightarrow> PStr ''Untitled'' | Some t \<Rightarrow> t),
                       (''link'', l),
                       (''snippet'', case map_of fs ''snippet'' of None \<Rightarrow> PStr '''' | Some s \<Rightarrow> s)]"
    if "e \<in> set (emitted {} es)" for e
  proof -
    from emitted_linked [OF that] obtain fs l where
      "e = PDict fs" "map_of fs ''link'' = Some l" "l \<noteq> PStr ''''" by auto
    then show ?thesis using source_of_fields [of fs l] by blast
  qed
  show ?thesis
  proof (cases "extract_try env raw")
    case (Inl x)
    then have "srcs = []" using assms(3) by (simp add: extract_sources_def)
    then show ?thesis by (intro exI [of _ "[]"]) simp
  next
    case (Inr ys)
    then have "srcs = ys" using assms(3) by (simp add: extract_sources_def)
    moreover have "extract_loop es [] {} = Inr ys"
      using Inr extract_try_organic [OF assms(1,2)] by simp
    ultimately have "srcs = map source_of (emitted {} es)"
      using extract_loop_returns by fastforce
    then show ?thesis
      using emitted_subseq [of "{}" es] linked
      by (intro exI [of _ "emitted {} es"]) blast
  qed
qed


theorem extract_sources_defaults_and_skips_witness:
  "json_loads sample_env response_one = Inr (PDict [(''organic'', PList entries_one)]) \<and>
   map_of [(''organic'', PList entries_one)] ''organic'' = Some (PList entries_one) \<and>
   extract_sources sample_env response_one world0 =
     (Inr [PDict [(''title'', PStr ''T1''), (''link'', PStr ''u1''), (''snippet'', PStr ''s1'')],
           PDict [(''title'', PStr ''Untitled''), (''link'', PStr ''u2''), (''snippet'', PStr '''')]],
      world0) \<and>
   (\<exists>sel. subseq sel entries_one \<and>
      [PDict [(''title'', PStr ''T1''), (''link'', PStr ''u1''), (''snippet'', PStr ''s1'')],
       PDict [(''title'', PStr ''Untitled''), (''link'', PStr ''u2''), (''snippet'', PStr '''')]] =
        map source_of sel \<and>
      (\<forall>e \<in> set sel. \<exists>fs l. e = PDict fs \<and> map_of fs ''link'' = Some l \<and> l \<noteq> PStr '''' \<and>
         source_of e =
           PDict [(''title'', case map_of fs ''title'' of None \<Rightarrow> PStr ''Untitled'' | Some t \<Rightarrow> t),
                  (''link'', l),
                  (''snippet'', case map_of fs ''snippet'' of None \<Rightarrow> PStr '''' | Some s \<Rightarrow> s)]))"
proof -
  have h1: "json_loads sample_env response_one = Inr (PDict [(''organic'', PList entries_one)])"
    by (simp add: sample_env_def sample_loads_def response_one_def parsed_one_def)
  have h2: "map_of [(''organic'', PList entries_one)] ''organic'' = Some (PList entries_one)"
    by simp
  have h3: "extract_sources sample_env response_one world0 =
     (Inr [PDict [(''title'', PStr ''T1''), (''link'', PStr ''u1''), (''snippet'', PStr ''s1'')],
           PDict [(''title'', PStr ''Untitled''), (''link'', PStr ''u2''), (''snippet'', PStr '''')]],
      world0)"
    by (simp add: extract_sources_def extract_try_def h1 entries_one_def)
  show ?thesis
    by (intro conjI h1 h2 h3 extract_sources_defaults_and_skips [OF h1 h2 h3])
qed

section \<open>generate_markdown_report: the shape of the report\<close>

lemma sources_loop_extends:
  "sources_loop env ss acc = Inr r \<Longrightarrow> \<exists>body. r = acc @ body"
proof (induction ss arbitrary: acc)
  case Nil
  then show ?case by simp
next
  case (Cons s ss)
  show ?case
    using Cons.prems
    by (auto split: sum.splits dest!: Cons.IH)
qed

lemma report_loop_extends:
  "report_loop env d acc = Inr r \<Longrightarrow> \<exists>body. r = acc @ body"
proof (induction d arbitrary: acc)
  case Nil
  then show ?case by simp
next
  case (Cons kv d)
  obtain company data where kv: "kv = (company, data)" by (cases kv)
  show ?case
  proof (cases "company = ''comparative_analysis''")
    case True
    then show ?thesis using Cons.prems Cons.IH kv by simp
  next
    case False
    then obtain r4 ai srcs sources where
      loop: "sources_loop env sources
          (acc @ ''## '' @ company @ '' AI Offerings'' @ nl @ nl @ fstr env ai @ nl @ nl @
             ''### Research Sources:'' @ nl) = Inr r4"
      and rest: "report_loop env d (r4 @ nl) = Inr r"
      using Cons.prems kv
      by (auto simp: Let_def split: sum.splits)
    from sources_loop_extends [OF loop] obtain b1 where
      "r4 = (acc @ ''## '' @ company @ '' AI Offerings'' @ nl @ nl @ fstr env ai @ nl @ nl @
             ''### Research Sources:'' @ nl) @ b1" by blast
    moreover from Cons.IH [OF rest] obtain b2 where "r = (r4 @ nl) @ b2" by blast
    ultimately show ?thesis by simp
  qed
qed

lemma sources_loop_total:
  "list_all is_source ss \<Longrightarrow> \<exists>r. sources_loop env ss acc = Inr r"
proof (induction ss arbitrary: acc)
  case Nil
  then show ?case by simp
next
  case (Cons s ss)
  then show ?case by (cases s) auto
qed

lemma report_loop_total:
  "is_research_result d \<Longrightarrow> \<exists>r. report_loop env d acc = Inr r"
proof (induction d arbitrary: acc)
  case Nil
  then show ?case by simp
next
  case (Cons kv d)
  obtain company data where kv: "kv = (company, data)" by (cases kv)
  have rest: "is_research_result d" using Cons.prems by (simp add: is_research_result_def)
  show ?case
  proof (cases "company = ''comparative_analysis''")
    case True
    then show ?thesis using Cons.IH [OF rest] kv by simp
  next
    case False
    then have "is_company_research data"
      using Cons.prems kv by (simp add: is_research_result_def)
    then obtain fs ai where data: "data = PDict fs" "map_of fs ''ai_offerings'' = Some ai"
      and srcs: "map_of fs ''sources'' = None \<or> (\<exists>ss. map_of fs ''sources'' = Some (PList ss) \<and> list_all is_source ss)"
      by (cases data) (auto split: option.splits pyval.splits)
    from srcs obtain ss where ss: "py_get data ''sources'' (PList []) = Inr (PList ss)" "list_all is_source ss"
      using data by auto
    from sources_loop_total [OF ss(2)] obtain r4 where
      "sources_loop env ss (acc @ ''## '' @ company @ '' AI Offerings'' @ nl @ nl @ fstr env ai @ nl @ nl @
             ''### Research Sources:'' @ nl) = Inr r4" by blast
    then show ?thesis
      using False kv data ss Cons.IH [OF rest, of "r4 @ nl"]
      by (simp add: Let_def)
  qed
qed

text \<open>
  Claim C6.  Whenever \<^verbatim>\<open>generate_markdown_report\<close> returns a report, the report starts
  with the heading \<^verbatim>\<open># AI Offerings and Case Studies Competitive Research Report\<close> and
  ends with the section \<^verbatim>\<open>## Comparative Analysis\<close> holding the stored text; when the
  mapping has no key \<open>comparative_analysis\<close> the section holds
  \<^verbatim>\<open>No comparative analysis available\<close>.  On every ResearchResult the function
  does return a report.
\<close>

theorem report_heading_and_comparative_section:
  "(generate_markdown_report env d = Inr r \<longrightarrow>
      (\<exists>body. r = ''# AI Offerings and Case Studies Competitive Research Report'' @ nl @ nl @
         body @ ''## Comparative Analysis'' @ nl @ nl @
         fstr env (case map_of d ''comparative_analysis'' of
                     None \<Rightarrow> PStr ''No comparative analysis available'' | Some v \<Rightarrow> v) @ nl)) \<and>
   (generate_markdown_report env d = Inr r \<and> map_of d ''comparative_analysis'' = None \<longrightarrow>
      (\<exists>body. r = ''# AI Offerings and Case Studies Competitive Research Report'' @ nl @ nl @
         body @ ''## Comparative Analysis'' @ nl @ nl @
         ''No comparative analysis available'' @ nl)) \<and>
   (is_research_result d \<longrightarrow> (\<exists>r. generate_markdown_report env d = Inr r))"
proof -
  have shape: "\<exists>body. r = ''# AI Offerings and Case Studies Competitive Research Report'' @ nl @ nl @
         body @ ''## Comparative Analysis'' @ nl @ nl @
         fstr env (case map_of d ''comparative_analysis'' of
                     None \<Rightarrow> PStr ''No comparative analysis available'' | Some v \<Rightarrow> v) @ nl"
    if "generate_markdown_report env d = Inr r"
  proof -
    from that obtain report where loop: "report_loop env d report_heading = Inr report"
      and r: "r = report @ ''## Comparative Analysis'' @ nl @ nl @
         fstr env (case map_of d ''comparative_analysis'' of
                     None \<Rightarrow> PStr ''No comparative analysis available'' | Some v \<Rightarrow> v) @ nl"
      by (auto simp: generate_markdown_report_def split: sum.splits)
    from report_loop_extends [OF loop] obtain body where "report = report_heading @ body"
      by blast
    then show ?thesis using r by (simp add: report_heading_def)
  qed
  have fallback: "\<exists>body. r = ''# AI Offerings and Case Studies Competitive Research Report'' @ nl @ nl @
         body @ ''## Comparative Analysis'' @ nl @ nl @
         ''No comparative analysis available'' @ nl"
    if "generate_markdown_report env d = Inr r" "map_of d ''comparative_analysis'' = None"
    using shape [OF that(1)] that(2) by (simp add: fstr_def)
  have total: "\<exists>r. generate_markdown_report env d = Inr r" if "is_research_result d"
    using report_loop_total [OF that, of env report_heading]
    by (auto simp: generate_markdown_report_def)
  show ?thesis using shape fallback total by blast
qed


theorem report_heading_and_comparative_section_witness:
  "is_research_result
     [(''Acme'', company_record (PStr ''Acme sells models.'')
         [PDict [(''title'', PStr ''T1''), (''link'', PStr ''u1''), (''snippet'', PStr ''s1'')]])] \<and>
   map_of
     [(''Acme'', company_record (PStr ''Acme sells models.'')
         [PDict [(''title'', PStr ''T1''), (''link'', PStr ''u1''), (''snippet'', PStr ''s1'')]])]
     ''comparative_analysis'' = None \<and>
   generate_markdown_report sample_env
     [(''Acme'', company_record (PStr ''Acme sells models.'')
         [PDict [(''title'', PStr ''T1''), (''link'', PStr ''u1''), (''snippet'', PStr ''s1'')]])] =
     Inr (''# AI Offerings and Case Studies Competitive Research Report'' @ nl @ nl @
          ''## Acme AI Offerings'' @ nl @ nl @ ''Acme sells models.'' @ nl @ nl @
          ''### Research Sources:'' @ nl @ ''- **T1**: u1'' @ nl @ nl @
          ''## Comparative Analysis'' @ nl @ nl @ ''No comparative analysis available'' @ nl)"
proof -
  let ?d = "[(''Acme'', company_record (PStr ''Acme sells models.'')
         [PDict [(''title'', PStr ''T1''), (''link'', PStr ''u1''), (''snippet'', PStr ''s1'')]])]"
  let ?r = "''# AI Offerings and Case Studies Competitive Research Report'' @ nl @ nl @
          ''## Acme AI Offerings'' @ nl @ nl @ ''Acme sells models.'' @ nl @ nl @
          ''### Research Sources:'' @ nl @ ''- **T1**: u1'' @ nl @ nl @
          ''## Comparative Analysis'' @ nl @ nl @ ''No comparative analysis available'' @ nl"
  have h1: "is_research_result ?d"
    by (simp add: is_research_result_def company_record_def)
  have h2: "map_of ?d ''comparative_analysis'' = None"
    by simp
  have h3: "generate_markdown_report sample_env ?d = Inr ?r"
    by (simp add: generate_markdown_report_def report_heading_def company_record_def fstr_def Let_def)
  show ?thesis
    using report_heading_and_comparative_section [of sample_env ?d ?r] h1 h2 h3 by blast
qed

section \<open>research_companies: the loop over the companies\<close>

lemma extract_sources_result:
  "extract_sources env resp w =
     (Inr (sources_of env resp),
      case extract_try env resp of Inr s \<Rightarrow> w | Inl e \<Rightarrow> print (''Error extracting sources: '', Some e) w)"
  by (simp add: extract_sources_def sources_of_def split: sum.split)

lemma extract_sources_calls: "calls (snd (extract_sources env resp w)) = calls w"
  by (simp add: extract_sources_result print_def split: sum.split)

lemma extract_sources_files: "files (snd (extract_sources env resp w)) = files w"
  by (simp add: extract_sources_result print_def split: sum.split)

lemma is_source_source_of: "is_dict e \<Longrightarrow> is_source (source_of e)"
  by (cases e) simp_all

lemma sources_of_are_sources: "list_all is_source (sources_of env resp)"
proof (cases "extract_try env resp")
  case (Inl e)
  then show ?thesis by (simp add: sources_of_def)
next
  case (Inr srcs)
  then have "\<exists>es. extract_loop es [] {} = Inr srcs"
    by (auto simp: extract_try_def split: sum.splits bool.splits intro: exI [of _ "[]"])
  then obtain es where "srcs = map source_of (emitted {} es)"
    using extract_loop_returns by fastforce
  then show ?thesis
    using Inr emitted_dict [of _ "{}" es]
    by (simp add: sources_of_def list_all_iff is_source_source_of)
qed

lemma research_loop_step:
  assumes "research_loop env (c # cs) rr w = (Inr d, w')" and "c \<noteq> []"
  shows "\<exists>resp research ai w3.
           requests_request env (calls w) (search_request env c) = Inr resp \<and>
           executor_invoke env (calls w @ [search_request env c]) (research_input c) = Inr research \<and>
           py_get research ''output'' (PStr ''No detailed AI offerings found'') = Inr ai \<and>
           calls w3 = calls w @ company_calls env c \<and>
           files w3 = files w \<and>
           research_loop env cs (AList.update c (company_record ai (sources_of env resp)) rr) w3 = (Inr d, w')"
proof -
  obtain res w1 where ws: "web_search env (search_query c) w = (res, w1)"
    by (cases "web_search env (search_query c) w")
  then have w1: "w1 = w\<lparr>calls := calls w @ [search_request env c]\<rparr>"
    and res: "res = requests_request env (calls w) (search_request env c)"
    by (simp_all add: web_search_def Let_def search_request_def)
  obtain resp where resp: "res = Inr resp"
    using assms ws by (cases res) simp_all
  define w2 where "w2 = snd (extract_sources env resp w1)"
  have ex: "extract_sources env resp w1 = (Inr (sources_of env resp), w2)"
    by (simp add: w2_def extract_sources_result)
  have c2: "calls w2 = calls w @ [search_request env c]" "files w2 = files w"
    by (simp_all add: w2_def extract_sources_calls extract_sources_files w1)
  define w3 where "w3 = w2\<lparr>calls := calls w2 @ [ExecutorInvoke (research_input c)]\<rparr>"
  obtain research where research:
    "executor_invoke env (calls w2) (research_input c) = Inr research"
    using assms ws resp ex
    by (cases "executor_invoke env (calls w2) (research_input c)") (simp_all add: Let_def)
  obtain ai where ai: "py_get research ''output'' (PStr ''No detailed AI offerings found'') = Inr ai"
    using assms ws resp ex research
    by (cases "py_get research ''output'' (PStr ''No detailed AI offerings found'')")
       (simp_all add: Let_def)
  have "research_loop env cs (AList.update c (company_record ai (sources_of env resp)) rr) w3 = (Inr d, w')"
    using assms ws resp ex research ai by (simp add: Let_def w3_def)
  moreover have "calls w3 = calls w @ company_calls env c" "files w3 = files w"
    by (simp_all add: w3_def c2 company_calls_def)
  moreover have "requests_request env (calls w) (search_request env c) = Inr resp"
    using resp res by simp
  moreover have "executor_invoke env (calls w @ [search_request env c]) (research_input c) = Inr research"
    using research c2 by simp
  ultimately show ?thesis
    using ai by blast
qed

lemma research_loop_calls:
  "research_loop env cs rr w = (Inr d, w') \<Longrightarrow>
   calls w' = calls w @ concat (map (company_calls env) (filter (\<lambda>c. c \<noteq> []) cs))"
proof (induction cs arbitrary: rr w)
  case Nil
  then show ?case by simp
next
  case (Cons c cs)
  show ?case
  proof (cases "c = []")
    case True
    then show ?thesis using Cons.prems Cons.IH by simp
  next
    case False
    from research_loop_step [OF Cons.prems False] obtain rr' w3 where
      "calls w3 = calls w @ company_calls env c"
      "research_loop env cs rr' w3 = (Inr d, w')" by blast
    then show ?thesis using False Cons.IH [of rr' w3] by simp
  qed
qed

lemma research_loop_files:
  "research_loop env cs rr w = (Inr d, w') \<Longrightarrow> files w' = files w"
proof (induction cs arbitrary: rr w)
  case Nil
  then show ?case by simp
next
  case (Cons c cs)
  show ?case
  proof (cases "c = []")
    case True
    then show ?thesis using Cons.prems Cons.IH by simp
  next
    case False
    from research_loop_step [OF Cons.prems False] obtain rr' w3 where
      "files w3 = files w"
      "research_loop env cs rr' w3 = (Inr d, w')" by blast
    then show ?thesis using Cons.IH [of rr' w3] by simp
  qed
qed

lemma list_all_update:
  "list_all P al \<Longrightarrow> P (k, v) \<Longrightarrow> list_all P (AList.update k v al)"
  by (induction al) auto

lemma research_loop_invariant:
  assumes "research_loop env cs rr w = (Inr d, w')"
    and "list_all P rr"
    and "\<And>c ai resp. c \<noteq> [] \<Longrightarrow> P (c, company_record ai (sources_of env resp))"
  shows "list_all P d"
  using assms(1,2)
proof (induction cs arbitrary: rr w)
  case Nil
  then show ?case by simp
next
  case (Cons c cs)
  show ?case
  proof (cases "c = []")
    case True
    then show ?thesis using Cons.prems Cons.IH by simp
  next
    case False
    from research_loop_step [OF Cons.prems(1) False] obtain resp ai w3 where
      "research_loop env cs (AList.update c (company_record ai (sources_of env resp)) rr) w3 = (Inr d, w')"
      by blast
    then show ?thesis
      using Cons.IH list_all_update [OF Cons.prems(2) assms(3) [OF False]] by blast
  qed
qed

lemma research_loop_distinct:
  assumes "research_loop env cs rr w = (Inr d, w')" and "distinct (map fst rr)"
  shows "distinct (map fst d)"
  using assms
proof (induction cs arbitrary: rr w)
  case Nil
  then show ?case by simp
next
  case (Cons c cs)
  show ?case
  proof (cases "c = []")
    case True
    then show ?thesis using Cons.prems Cons.IH by simp
  next
    case False
    from research_loop_step [OF Cons.prems(1) False] obtain resp ai w3 where
      "research_loop env cs (AList.update c (company_record ai (sources_of env resp)) rr) w3 = (Inr d, w')"
      by blast
    then show ?thesis
      using Cons.IH Cons.prems(2) by (blast intro: distinct_update)
  qed
qed

lemma research_loop_keeps_record:
  assumes "research_loop env cs rr w = (Inr d, w')"
    and "\<exists>ai srcs. map_of rr k = Some (company_record ai srcs)"
  shows "\<exists>ai srcs. map_of d k = Some (company_record ai srcs)"
  using assms
proof (induction cs arbitrary: rr w)
  case Nil
  then show ?case by simp
next
  case (Cons c cs)
  show ?case
  proof (cases "c = []")
    case True
    then show ?thesis using Cons.prems Cons.IH by simp
  next
    case False
    from research_loop_step [OF Cons.prems(1) False] obtain resp ai w3 where
      step: "research_loop env cs (AList.update c (company_record ai (sources_of env resp)) rr) w3 = (Inr d, w')"
      by blast
    have "\<exists>ai' srcs. map_of (AList.update c (company_record ai (sources_of env resp)) rr) k =
        Some (company_record ai' srcs)"
      using Cons.prems(2) by (cases "k = c") (auto simp: update_conv')
    then show ?thesis using Cons.IH [OF step] by blast
  qed
qed

lemma research_loop_stores_record:
  assumes "research_loop env cs rr w = (Inr d, w')" and "k \<in> set cs" and "k \<noteq> []"
  shows "\<exists>ai srcs. map_of d k = Some (company_record ai srcs)"
  using assms
proof (induction cs arbitrary: rr w)
  case Nil
  then show ?case by simp
next
  case (Cons c cs)
  show ?case
  proof (cases "c = []")
    case True
    then show ?thesis using Cons.prems Cons.IH by auto
  next
    case False
    from research_loop_step [OF Cons.prems(1) False] obtain resp ai w3 where
      step: "research_loop env cs (AList.update c (company_record ai (sources_of env resp)) rr) w3 = (Inr d, w')"
      by blast
    show ?thesis
    proof (cases "k = c")
      case True
      have "\<exists>ai' srcs. map_of (AList.update c (company_record ai (sources_of env resp)) rr) k =
          Some (company_record ai' srcs)"
        using True by (auto simp: update_conv')
      then show ?thesis using research_loop_keeps_record [OF step] by blast
    next
      case False
      then have "k \<in> set cs" using Cons.prems(2) by simp
      then show ?thesis using Cons.IH [OF step _ Cons.prems(3)] by blast
    qed
  qed
qed

lemma research_companies_elim:
  assumes "research_companies env companies parent_company w = (Inr d, w')"
  shows "\<exists>rr w1 content.
           research_loop env (companies @ [parent_company]) [] w = (Inr rr, w1) \<and>
           llm_invoke env (calls w1) (comparison_prompt companies parent_company) = Inr content \<and>
           d = AList.update ''comparative_analysis'' content rr \<and>
           w' = w1\<lparr>calls := calls w1 @ [LlmInvoke (comparison_prompt companies parent_company)]\<rparr>"
  using assms
  by (auto simp: research_companies_def Let_def split: prod.splits sum.splits)

section \<open>The report of a research result\<close>

lemma report_loop_faults:
  assumes "(k, v) \<in> set d" and "k \<noteq> ''comparative_analysis''"
    and "py_getitem v ''ai_offerings'' = Inl x"
  shows "\<exists>e. report_loop env d acc = Inl e"
  using assms(1)
proof (induction d arbitrary: acc)
  case Nil
  then show ?case by simp
next
  case (Cons kv d)
  obtain company data where kv: "kv = (company, data)" by (cases kv)
  show ?case
  proof (cases "kv = (k, v)")
    case True
    then show ?thesis using assms(2,3) by (simp add: Let_def)
  next
    case False
    then have "(k, v) \<in> set d" using Cons.prems by simp
    then have "\<exists>e. report_loop env d acc' = Inl e" for acc' using Cons.IH by blast
    then show ?thesis
      unfolding kv by (auto simp: Let_def split: sum.splits)
  qed
qed

lemma set_update_subset: "set (AList.update k v al) \<subseteq> insert (k, v) (set al)"
  by (induction al) auto

lemma research_companies_records:
  assumes "research_companies env companies parent_company w = (Inr d, w')"
  shows "list_all (\<lambda>kv. fst kv \<noteq> ''comparative_analysis'' \<longrightarrow>
           (\<exists>ai srcs. snd kv = PDict [(''ai_offerings'', ai), (''sources'', PList srcs)] \<and>
              list_all is_source srcs)) d"
proof -
  let ?P = "\<lambda>kv. \<exists>ai srcs. snd kv = PDict [(''ai_offerings'', ai), (''sources'', PList srcs)] \<and>
              list_all is_source srcs"
  from research_companies_elim [OF assms] obtain rr w1 content where
    loop: "research_loop env (companies @ [parent_company]) [] w = (Inr rr, w1)"
    and d: "d = AList.update ''comparative_analysis'' content rr" by blast
  have "list_all ?P rr"
    by (rule research_loop_invariant [OF loop])
       (auto simp: company_record_def sources_of_are_sources)
  then have "\<forall>kv \<in> set rr. ?P kv" by (simp add: list_all_iff)
  then show ?thesis
    using set_update_subset [of "''comparative_analysis''" content rr]
    unfolding d list_all_iff by fastforce
qed

text \<open>
  Claim C10.  \<^verbatim>\<open>generate_markdown_report\<close> raises, and returns no report, on a mapping
  in which some key other than \<open>comparative_analysis\<close> has a plain string as its value or
  a dictionary without \<open>ai_offerings\<close>.  In every mapping that \<^verbatim>\<open>research_companies\<close>
  returns, the value of each such key is a dictionary with exactly the keys
  \<open>ai_offerings\<close> and \<open>sources\<close>, and \<^verbatim>\<open>generate_markdown_report\<close> returns a report
  for it.
\<close>

theorem report_needs_ai_offerings:
  "((k, v) \<in> set d \<and> k \<noteq> ''comparative_analysis'' \<and>
      (v = PStr s \<or> (v = PDict fs \<and> map_of fs ''ai_offerings'' = None)) \<longrightarrow>
      (\<exists>e. generate_markdown_report env d = Inl e)) \<and>
   (research_companies env companies parent_company w = (Inr d', w') \<longrightarrow>
      (\<forall>kv \<in> set d'. fst kv \<noteq> ''comparative_analysis'' \<longrightarrow>
         (\<exists>ai srcs. snd kv = PDict [(''ai_offerings'', ai), (''sources'', PList srcs)])) \<and>
      (\<exists>r. generate_markdown_report env d' = Inr r))"
proof (intro conjI impI)
  assume a: "(k, v) \<in> set d \<and> k \<noteq> ''comparative_analysis'' \<and>
      (v = PStr s \<or> (v = PDict fs \<and> map_of fs ''ai_offerings'' = None))"
  then have "\<exists>x. py_getitem v ''ai_offerings'' = Inl x" by auto
  then obtain e where "report_loop env d report_heading = Inl e"
    using a report_loop_faults by blast
  then show "\<exists>e. generate_markdown_report env d = Inl e"
    by (simp add: generate_markdown_report_def)
next
  assume run: "research_companies env companies parent_company w = (Inr d', w')"
  from research_companies_records [OF run]
  show "\<forall>kv \<in> set d'. fst kv \<noteq> ''comparative_analysis'' \<longrightarrow>
         (\<exists>ai srcs. snd kv = PDict [(''ai_offerings'', ai), (''sources'', PList srcs)])"
    unfolding list_all_iff by blast
next
  assume run: "research_companies env companies parent_company w = (Inr d', w')"
  have "is_research_result d'"
    unfolding is_research_result_def list_all_iff
  proof (intro ballI impI)
    fix kv
    assume "kv \<in> set d'" and "fst kv \<noteq> ''comparative_analysis''"
    then obtain ai srcs where
      "snd kv = PDict [(''ai_offerings'', ai), (''sources'', PList srcs)]" "Ball (set srcs) is_source"
      using research_companies_records [OF run, unfolded list_all_iff] by blast
    then show "is_company_research (snd kv)" by (simp add: list_all_iff)
  qed
  then obtain r where "report_loop env d' report_heading = Inr r"
    using report_loop_total by blast
  then show "\<exists>r. generate_markdown_report env d' = Inr r"
    by (simp add: generate_markdown_report_def)
qed

lemma sample_loads_one: "sample_loads response_one = Inr parsed_one"
  by (simp add: sample_loads_def response_one_def)

lemma sample_loads_two: "sample_loads response_two = Inr parsed_two"
  by (simp add: sample_loads_def response_one_def response_two_def)

lemma sample_sources_one:
  "extract_sources sample_env response_one w =
     (Inr [PDict [(''title'', PStr ''T1''), (''link'', PStr ''u1''), (''snippet'', PStr ''s1'')],
           PDict [(''title'', PStr ''Untitled''), (''link'', PStr ''u2''), (''snippet'', PStr '''')]], w)"
  by (simp add: extract_sources_def extract_try_def sample_env_def sample_loads_one parsed_one_def entries_one_def)

lemma sample_sources_two:
  "extract_sources sample_env response_two w =
     (Inr [PDict [(''title'', PStr ''P''), (''link'', PStr ''v1''), (''snippet'', PStr '''')],
           PDict [(''title'', PStr ''Q''), (''link'', PStr ''v2''), (''snippet'', PStr '''')]], w)"
  by (simp add: extract_sources_def extract_try_def sample_env_def sample_loads_two parsed_two_def entries_two_def)

lemma sample_env_fields:
  "serper_api_key sample_env = ''key''"
  "json_dumps sample_env v = ''payload''"
  "py_str sample_env v = ''value''"
  "requests_request sample_env history request =
     Inr (if length history < 4 then response_one else response_two)"
  "executor_invoke sample_env history input =
     Inr (PDict [(''output'', PStr (replicate (length history) (CHR ''*'')))])"
  "llm_invoke sample_env history prompt = Inr (PStr ''comparison'')"
  by (simp_all add: sample_env_def)

lemma sample_run_parent:
  "fst (research_companies sample_env [''Acme'', ''''] ''Parent'' world0) =
     Inr [(''Acme'', PDict [(''ai_offerings'', PStr ''*''),
            (''sources'', PList
               [PDict [(''title'', PStr ''T1''), (''link'', PStr ''u1''), (''snippet'', PStr ''s1'')],
                PDict [(''title'', PStr ''Untitled''), (''link'', PStr ''u2''), (''snippet'', PStr '''')]])]),
          (''Parent'', PDict [(''ai_offerings'', PStr ''***''),
            (''sources'', PList
               [PDict [(''title'', PStr ''T1''), (''link'', PStr ''u1''), (''snippet'', PStr ''s1'')],
                PDict [(''title'', PStr ''Untitled''), (''link'', PStr ''u2''), (''snippet'', PStr '''')]])]),
          (''comparative_analysis'', PStr ''comparison'')]"
  by (simp add: research_companies_def web_search_def sample_env_fields sample_sources_one
        sample_sources_two company_record_def Let_def world0_def)

theorem report_needs_ai_offerings_witness:
  "(''Acme'', PStr ''text'') \<in> set [(''Acme'', PStr ''text'')] \<and>
   ''Acme'' \<noteq> ''comparative_analysis'' \<and>
   (\<exists>e. generate_markdown_report sample_env [(''Acme'', PStr ''text'')] = Inl e) \<and>
   (''Acme'', PDict [(''sources'', PList [])]) \<in> set [(''Acme'', PDict [(''sources'', PList [])])] \<and>
   map_of [(''sources'', PList [])] ''ai_offerings'' = None \<and>
   (\<exists>e. generate_markdown_report sample_env [(''Acme'', PDict [(''sources'', PList [])])] = Inl e) \<and>
   (\<exists>d w'. research_companies sample_env [''Acme'', ''''] ''Parent'' world0 = (Inr d, w') \<and>
      map fst d = [''Acme'', ''Parent'', ''comparative_analysis''] \<and>
      (\<exists>r. generate_markdown_report sample_env d = Inr r))"
proof -
  have a1: "(''Acme'', PStr ''text'') \<in> set [(''Acme'', PStr ''text'')] \<and>
      ''Acme'' \<noteq> ''comparative_analysis'' \<and>
      (PStr ''text'' = PStr ''text'' \<or> (PStr ''text'' = PDict [] \<and> map_of [] ''ai_offerings'' = None))"
    by simp
  have a2: "(''Acme'', PDict [(''sources'', PList [])]) \<in> set [(''Acme'', PDict [(''sources'', PList [])])] \<and>
      ''Acme'' \<noteq> ''comparative_analysis'' \<and>
      (PDict [(''sources'', PList [])] = PStr [] \<or>
       (PDict [(''sources'', PList [])] = PDict [(''sources'', PList [])] \<and>
        map_of [(''sources'', PList [])] ''ai_offerings'' = None))"
    by simp
  obtain d w' where run: "research_companies sample_env [''Acme'', ''''] ''Parent'' world0 = (Inr d, w')"
    and keys: "map fst d = [''Acme'', ''Parent'', ''comparative_analysis'']"
    using sample_run_parent
    by (cases "research_companies sample_env [''Acme'', ''''] ''Parent'' world0") auto
  have c1: "\<exists>e. generate_markdown_report sample_env [(''Acme'', PStr ''text'')] = Inl e"
    using report_needs_ai_offerings [of "''Acme''" "PStr ''text''" "[(''Acme'', PStr ''text'')]"
        "''text''" "[]" sample_env] a1 by blast
  have c2: "\<exists>e. generate_markdown_report sample_env [(''Acme'', PDict [(''sources'', PList [])])] = Inl e"
    using report_needs_ai_offerings [of "''Acme''" "PDict [(''sources'', PList [])]"
        "[(''Acme'', PDict [(''sources'', PList [])])]" "[]" "[(''sources'', PList [])]" sample_env] a2
    by blast
  have c3: "\<exists>r. generate_markdown_report sample_env d = Inr r"
    using report_needs_ai_offerings [of _ _ "[]" _ _ sample_env "[''Acme'', '''']" "''Parent''" world0 d w'] run
    by blast
  have c4: "\<exists>d w'. research_companies sample_env [''Acme'', ''''] ''Parent'' world0 = (Inr d, w') \<and>
      map fst d = [''Acme'', ''Parent'', ''comparative_analysis''] \<and>
      (\<exists>r. generate_markdown_report sample_env d = Inr r)"
    by (intro exI [of _ d] exI [of _ "w'"] conjI run keys c3)
  show ?thesis
    by (intro conjI c1 c2 c4) simp_all
qed

section \<open>research_companies: the working set and the reserved key\<close>

text \<open>
  Claim C1.  When \<^verbatim>\<open>research_companies\<close> returns, the calls it has sent are, in order,
  those of processing each non-empty entry of \<open>companies\<close> followed by
  \<open>parent_company\<close>, with repeated names processed again, and then the comparison prompt.
  For \<open>companies = ["A", "B"]\<close> and \<open>parent_company = "B"\<close> the companies processed are
  A, B, B; the keys of the returned mapping are A, B and \<open>comparative_analysis\<close>; and the
  record of B is made of the answers to the second run for B, the search and the agent
  invocation that come after the calls of the first run for B.
\<close>

theorem research_companies_working_set:
  "(research_companies env companies parent_company w = (Inr d, w') \<longrightarrow>
      calls w' =
        calls w @
        concat (map (company_calls env) (filter (\<lambda>c. c \<noteq> []) (companies @ [parent_company]))) @
        [LlmInvoke (comparison_prompt companies parent_company)]) \<and>
   (research_companies env [''A'', ''B''] ''B'' w = (Inr d, w') \<longrightarrow>
      calls w' =
        calls w @ company_calls env ''A'' @ company_calls env ''B'' @ company_calls env ''B'' @
        [LlmInvoke (comparison_prompt [''A'', ''B''] ''B'')] \<and>
      map fst d = [''A'', ''B'', ''comparative_analysis''] \<and>
      (\<exists>resp research ai srcs.
         requests_request env (calls w @ company_calls env ''A'' @ company_calls env ''B'')
           (search_request env ''B'') = Inr resp \<and>
         (\<forall>w0. fst (extract_sources env resp w0) = Inr srcs) \<and>
         executor_invoke env
           (calls w @ company_calls env ''A'' @ company_calls env ''B'' @ [search_request env ''B''])
           (research_input ''B'') = Inr research \<and>
         py_get research ''output'' (PStr ''No detailed AI offerings found'') = Inr ai \<and>
         map_of d ''B'' = Some (PDict [(''ai_offerings'', ai), (''sources'', PList srcs)])))"
proof (intro conjI impI)
  assume run: "research_companies env companies parent_company w = (Inr d, w')"
  from research_companies_elim [OF run] obtain rr w1 where
    loop: "research_loop env (companies @ [parent_company]) [] w = (Inr rr, w1)"
    and w': "w' = w1\<lparr>calls := calls w1 @ [LlmInvoke (comparison_prompt companies parent_company)]\<rparr>"
    by blast
  show "calls w' =
        calls w @
        concat (map (company_calls env) (filter (\<lambda>c. c \<noteq> []) (companies @ [parent_company]))) @
        [LlmInvoke (comparison_prompt companies parent_company)]"
    using research_loop_calls [OF loop] w' by simp
next
  assume run: "research_companies env [''A'', ''B''] ''B'' w = (Inr d, w')"
  from research_companies_elim [OF run] obtain rr w1 content where
    loop: "research_loop env [''A'', ''B'', ''B''] [] w = (Inr rr, w1)"
    and d: "d = AList.update ''comparative_analysis'' content rr"
    and w': "w' = w1\<lparr>calls := calls w1 @ [LlmInvoke (comparison_prompt [''A'', ''B''] ''B'')]\<rparr>"
    by auto
  from research_loop_step [OF loop] obtain respA aiA wA where
    cA: "calls wA = calls w @ company_calls env ''A''"
    and loopA: "research_loop env [''B'', ''B'']
      (AList.update ''A'' (company_record aiA (sources_of env respA)) []) wA = (Inr rr, w1)"
    by auto
  from research_loop_step [OF loopA] obtain respB aiB wB where
    cB: "calls wB = calls wA @ company_calls env ''B''"
    and loopB: "research_loop env [''B'']
      (AList.update ''B'' (company_record aiB (sources_of env respB))
        (AList.update ''A'' (company_record aiA (sources_of env respA)) [])) wB = (Inr rr, w1)"
    by auto
  from research_loop_step [OF loopB] obtain resp research ai wC where
    req: "requests_request env (calls wB) (search_request env ''B'') = Inr resp"
    and inv: "executor_invoke env (calls wB @ [search_request env ''B'']) (research_input ''B'') = Inr research"
    and ai: "py_get research ''output'' (PStr ''No detailed AI offerings found'') = Inr ai"
    and cC: "calls wC = calls wB @ company_calls env ''B''"
    and loopC: "research_loop env []
      (AList.update ''B'' (company_record ai (sources_of env resp))
        (AList.update ''B'' (company_record aiB (sources_of env respB))
          (AList.update ''A'' (company_record aiA (sources_of env respA)) []))) wC = (Inr rr, w1)"
    by auto
  have rr: "rr = [(''A'', company_record aiA (sources_of env respA)),
                  (''B'', company_record ai (sources_of env resp))]"
    and w1: "w1 = wC"
    using loopC by simp_all
  show "calls w' =
        calls w @ company_calls env ''A'' @ company_calls env ''B'' @ company_calls env ''B'' @
        [LlmInvoke (comparison_prompt [''A'', ''B''] ''B'')]"
    using w' w1 cA cB cC by simp
  show "map fst d = [''A'', ''B'', ''comparative_analysis'']"
    using d rr by simp
  have "\<forall>w0. fst (extract_sources env resp w0) = Inr (sources_of env resp)"
    by (simp add: extract_sources_result)
  moreover have "map_of d ''B'' =
      Some (PDict [(''ai_offerings'', ai), (''sources'', PList (sources_of env resp))])"
    using d rr by (simp add: company_record_def)
  ultimately show "\<exists>resp research ai srcs.
         requests_request env (calls w @ company_calls env ''A'' @ company_calls env ''B'')
           (search_request env ''B'') = Inr resp \<and>
         (\<forall>w0. fst (extract_sources env resp w0) = Inr srcs) \<and>
         executor_invoke env
           (calls w @ company_calls env ''A'' @ company_calls env ''B'' @ [search_request env ''B''])
           (research_input ''B'') = Inr research \<and>
         py_get research ''output'' (PStr ''No detailed AI offerings found'') = Inr ai \<and>
         map_of d ''B'' = Some (PDict [(''ai_offerings'', ai), (''sources'', PList srcs)])"
    using req inv ai cA cB by auto
qed

lemma sample_run_AB:
  "fst (research_companies sample_env [''A'', ''B''] ''B'' world0) =
     Inr [(''A'', PDict [(''ai_offerings'', PStr ''*''),
            (''sources'', PList
               [PDict [(''title'', PStr ''T1''), (''link'', PStr ''u1''), (''snippet'', PStr ''s1'')],
                PDict [(''title'', PStr ''Untitled''), (''link'', PStr ''u2''), (''snippet'', PStr '''')]])]),
          (''B'', PDict [(''ai_offerings'', PStr ''*****''),
            (''sources'', PList
               [PDict [(''title'', PStr ''P''), (''link'', PStr ''v1''), (''snippet'', PStr '''')],
                PDict [(''title'', PStr ''Q''), (''link'', PStr ''v2''), (''snippet'', PStr '''')]])]),
          (''comparative_analysis'', PStr ''comparison'')]"
  by (simp add: research_companies_def web_search_def sample_env_fields sample_sources_one
        sample_sources_two company_record_def Let_def world0_def)

theorem research_companies_working_set_witness:
  "\<exists>w'. research_companies sample_env [''A'', ''B''] ''B'' world0 =
       (Inr [(''A'', PDict [(''ai_offerings'', PStr ''*''),
            (''sources'', PList
               [PDict [(''title'', PStr ''T1''), (''link'', PStr ''u1''), (''snippet'', PStr ''s1'')],
                PDict [(''title'', PStr ''Untitled''), (''link'', PStr ''u2''), (''snippet'', PStr '''')]])]),
          (''B'', PDict [(''ai_offerings'', PStr ''*****''),
            (''sources'', PList
               [PDict [(''title'', PStr ''P''), (''link'', PStr ''v1''), (''snippet'', PStr '''')],
                PDict [(''title'', PStr ''Q''), (''link'', PStr ''v2''), (''snippet'', PStr '''')]])]),
          (''comparative_analysis'', PStr ''comparison'')], w') \<and>
     calls w' =
       calls world0 @ company_calls sample_env ''A'' @ company_calls sample_env ''B'' @
       company_calls sample_env ''B'' @ [LlmInvoke (comparison_prompt [''A'', ''B''] ''B'')]"
proof -
  let ?d = "[(''A'', PDict [(''ai_offerings'', PStr ''*''),
            (''sources'', PList
               [PDict [(''title'', PStr ''T1''), (''link'', PStr ''u1''), (''snippet'', PStr ''s1'')],
                PDict [(''title'', PStr ''Untitled''), (''link'', PStr ''u2''), (''snippet'', PStr '''')]])]),
          (''B'', PDict [(''ai_offerings'', PStr ''*****''),
            (''sources'', PList
               [PDict [(''title'', PStr ''P''), (''link'', PStr ''v1''), (''snippet'', PStr '''')],
                PDict [(''title'', PStr ''Q''), (''link'', PStr ''v2''), (''snippet'', PStr '''')]])]),
          (''comparative_analysis'', PStr ''comparison'')]"
  obtain w' where run: "research_companies sample_env [''A'', ''B''] ''B'' world0 = (Inr ?d, w')"
    using sample_run_AB
    by (cases "research_companies sample_env [''A'', ''B''] ''B'' world0") auto
  from research_companies_working_set [of sample_env _ _ world0 ?d w', THEN conjunct2, rule_format, OF run]
  have "calls w' =
       calls world0 @ company_calls sample_env ''A'' @ company_calls sample_env ''B'' @
       company_calls sample_env ''B'' @ [LlmInvoke (comparison_prompt [''A'', ''B''] ''B'')]"
    by (rule conjunct1)
  with run show ?thesis by (intro exI [of _ "w'"] conjI)
qed

lemma filter_key_distinct:
  "distinct (map fst al) \<Longrightarrow> map_of al k = Some v \<Longrightarrow>
   filter (\<lambda>kv. fst kv = k) al = [(k, v)]"
proof (induction al)
  case Nil
  then show ?case by simp
next
  case (Cons p al)
  show ?case
  proof (cases "fst p = k")
    case True
    then have "k \<notin> fst ` set al" using Cons.prems(1) by simp
    then have "\<forall>kv \<in> set al. fst kv \<noteq> k" by (metis imageI)
    then have "filter (\<lambda>kv. fst kv = k) al = []" by (simp add: filter_empty_conv)
    then show ?thesis using True Cons.prems(2) by (cases p) auto
  next
    case False
    then have "map_of al k = Some v" using Cons.prems(2) by (cases p) auto
    then show ?thesis using False Cons.IH Cons.prems(1) by simp
  qed
qed

text \<open>
  Claim C9.  Whenever \<^verbatim>\<open>research_companies\<close> returns, the returned mapping is the
  mapping built by the loop with the key \<open>comparative_analysis\<close> set to the content of
  the comparison answer: the key maps to that content and occurs once.  When
  \<open>comparative_analysis\<close> is itself the name of a company or of the parent, the loop had
  stored the record of that company under the key, and the record is replaced.
\<close>

theorem comparative_analysis_key_overwritten:
  "research_companies env companies parent_company w = (Inr d, w') \<longrightarrow>
     (\<exists>rr w1 content.
        research_loop env (companies @ [parent_company]) [] w = (Inr rr, w1) \<and>
        llm_invoke env (calls w1) (comparison_prompt companies parent_company) = Inr content \<and>
        d = AList.update ''comparative_analysis'' content rr \<and>
        map_of d ''comparative_analysis'' = Some content \<and>
        filter (\<lambda>kv. fst kv = ''comparative_analysis'') d = [(''comparative_analysis'', content)] \<and>
        (''comparative_analysis'' \<in> set (companies @ [parent_company]) \<longrightarrow>
           (\<exists>ai srcs. map_of rr ''comparative_analysis'' =
              Some (PDict [(''ai_offerings'', ai), (''sources'', PList srcs)]))))"
proof
  assume run: "research_companies env companies parent_company w = (Inr d, w')"
  from research_companies_elim [OF run] obtain rr w1 content where
    loop: "research_loop env (companies @ [parent_company]) [] w = (Inr rr, w1)"
    and llm: "llm_invoke env (calls w1) (comparison_prompt companies parent_company) = Inr content"
    and d: "d = AList.update ''comparative_analysis'' content rr"
    by blast
  have m: "map_of d ''comparative_analysis'' = Some content"
    by (simp add: d update_conv')
  have "distinct (map fst rr)"
    using research_loop_distinct [OF loop] by simp
  then have "distinct (map fst d)"
    unfolding d by (rule distinct_update)
  then have f: "filter (\<lambda>kv. fst kv = ''comparative_analysis'') d = [(''comparative_analysis'', content)]"
    using m by (rule filter_key_distinct)
  have s: "\<exists>ai srcs. map_of rr ''comparative_analysis'' =
              Some (PDict [(''ai_offerings'', ai), (''sources'', PList srcs)])"
    if "''comparative_analysis'' \<in> set (companies @ [parent_company])"
    using research_loop_stores_record [OF loop that] by (simp add: company_record_def)
  show "\<exists>rr w1 content.
        research_loop env (companies @ [parent_company]) [] w = (Inr rr, w1) \<and>
        llm_invoke env (calls w1) (comparison_prompt companies parent_company) = Inr content \<and>
        d = AList.update ''comparative_analysis'' content rr \<and>
        map_of d ''comparative_analysis'' = Some content \<and>
        filter (\<lambda>kv. fst kv = ''comparative_analysis'') d = [(''comparative_analysis'', content)] \<and>
        (''comparative_analysis'' \<in> set (companies @ [parent_company]) \<longrightarrow>
           (\<exists>ai srcs. map_of rr ''comparative_analysis'' =
              Some (PDict [(''ai_offerings'', ai), (''sources'', PList srcs)])))"
    using loop llm d m f s by blast
qed


lemma sample_run_sentinel:
  "fst (research_companies sample_env [''comparative_analysis''] ''P'' world0) =
     Inr [(''comparative_analysis'', PStr ''comparison''),
          (''P'', PDict [(''ai_offerings'', PStr ''***''),
            (''sources'', PList
               [PDict [(''title'', PStr ''T1''), (''link'', PStr ''u1''), (''snippet'', PStr ''s1'')],
                PDict [(''title'', PStr ''Untitled''), (''link'', PStr ''u2''), (''snippet'', PStr '''')]])])]"
  by (simp add: research_companies_def web_search_def sample_env_fields sample_sources_one
        sample_sources_two company_record_def Let_def world0_def)

theorem comparative_analysis_key_overwritten_witness:
  "\<exists>w' rr w1.
     research_companies sample_env [''comparative_analysis''] ''P'' world0 =
       (Inr [(''comparative_analysis'', PStr ''comparison''),
          (''P'', PDict [(''ai_offerings'', PStr ''***''),
            (''sources'', PList
               [PDict [(''title'', PStr ''T1''), (''link'', PStr ''u1''), (''snippet'', PStr ''s1'')],
                PDict [(''title'', PStr ''Untitled''), (''link'', PStr ''u2''), (''snippet'', PStr '''')]])])],
        w') \<and>
     ''comparative_analysis'' \<in> set ([''comparative_analysis''] @ [''P'']) \<and>
     research_loop sample_env ([''comparative_analysis''] @ [''P'']) [] world0 = (Inr rr, w1) \<and>
     (\<exists>ai srcs. map_of rr ''comparative_analysis'' =
              Some (PDict [(''ai_offerings'', ai), (''sources'', PList srcs)]))"
proof -
  let ?d = "[(''comparative_analysis'', PStr ''comparison''),
          (''P'', PDict [(''ai_offerings'', PStr ''***''),
            (''sources'', PList
               [PDict [(''title'', PStr ''T1''), (''link'', PStr ''u1''), (''snippet'', PStr ''s1'')],
                PDict [(''title'', PStr ''Untitled''), (''link'', PStr ''u2''), (''snippet'', PStr '''')]])])]"
  obtain w' where run: "research_companies sample_env [''comparative_analysis''] ''P'' world0 = (Inr ?d, w')"
    using sample_run_sentinel
    by (cases "research_companies sample_env [''comparative_analysis''] ''P'' world0") auto
  have mem: "''comparative_analysis'' \<in> set ([''comparative_analysis''] @ [''P''])"
    by simp
  from comparative_analysis_key_overwritten [of sample_env "[''comparative_analysis'']" "''P''"
      world0 ?d w', rule_format, OF run]
  obtain rr w1 where
    loop: "research_loop sample_env ([''comparative_analysis''] @ [''P'']) [] world0 = (Inr rr, w1)"
    and imp: "''comparative_analysis'' \<in> set ([''comparative_analysis''] @ [''P'']) \<longrightarrow>
           (\<exists>ai srcs. map_of rr ''comparative_analysis'' =
              Some (PDict [(''ai_offerings'', ai), (''sources'', PList srcs)]))"
    by (elim exE conjE)
  from imp mem have "\<exists>ai srcs. map_of rr ''comparative_analysis'' =
              Some (PDict [(''ai_offerings'', ai), (''sources'', PList srcs)])" by (rule mp)
  then show ?thesis
    by (intro exI [of _ "w'"] exI [of _ rr] exI [of _ w1] conjI run mem loop)
qed

section \<open>export_markdown: failures of the write\<close>




end
